theory Spec2Isabelle
  imports Main "HOL-Library.Word" "HOL-Library.Sublist"
begin

section \<open>The echo client of \<^verbatim>\<open>warmup/sockets/echo_client.py\<close>\<close>

text \<open>
  The program under study:
  \<^verbatim>\<open>
  def main(addr):
      sock = socket(AF_INET, SOCK_STREAM)
      sock.connect(addr)
      msg = input("Say >")
      sock.sendall(msg.encode('utf-8'))
      response = sock.recv(len(msg))
      print("Received >", response.decode('utf-8'))

  main(('localhost', 12345))
  \<close>
  Every statement is a call into the Python runtime. The model gives each call its
  result as a value (\<open>Inl\<close> for a raised exception), takes what the outside world
  decides (the peer, the kernel's socket buffers, the terminal) from a record
  \<open>world\<close>, and logs every executed call with its outcome in a trace.
\<close>

subsection \<open>Values\<close>

text \<open>
  A Python \<open>str\<close> is a sequence of Unicode code points and \<open>len\<close> counts code
  points; a \<open>bytes\<close> object is a sequence of octets.
\<close>

type_synonym codepoint = nat
type_synonym str = "codepoint list"
type_synonym byte = "8 word"
type_synonym address = "string \<times> nat"

text \<open>
  The exceptions the calls of the program raise. Every socket failure is an
  \<open>OSError\<close> (carrying its \<open>errno\<close>); \<open>input\<close> raises \<open>EOFError\<close> at end of
  input; the codec raises the two Unicode errors.
\<close>

datatype error = OSError nat | EOFError | UnicodeEncodeError | UnicodeDecodeError

text \<open>An ASCII literal as a \<open>str\<close>.\<close>

definition str_of :: "string \<Rightarrow> str" where
  "str_of cs = map of_char cs"

definition is_ascii :: "str \<Rightarrow> bool" where
  "is_ascii s = list_all (\<lambda>c. c < 128) s"

subsection \<open>The UTF-8 codec (\<open>str.encode('utf-8')\<close>, \<open>bytes.decode('utf-8')\<close>)\<close>

text \<open>
  The strict encoder: one to four octets per code point, \<open>UnicodeEncodeError\<close> on
  a surrogate (\<open>U+D800..U+DFFF\<close>). A \<open>str\<close> holds no code point above
  \<open>U+10FFFF\<close>; the model rejects such a number with the same error.
\<close>

definition encode_char :: "codepoint \<Rightarrow> error + byte list" where
  "encode_char c =
     (if c < 0x80 then Inr [of_nat c]
      else if c < 0x800 then
        Inr [of_nat (0xC0 + c div 0x40), of_nat (0x80 + c mod 0x40)]
      else if 0xD800 \<le> c \<and> c < 0xE000 then Inl UnicodeEncodeError
      else if c < 0x10000 then
        Inr [of_nat (0xE0 + c div 0x1000), of_nat (0x80 + c div 0x40 mod 0x40),
             of_nat (0x80 + c mod 0x40)]
      else if c < 0x110000 then
        Inr [of_nat (0xF0 + c div 0x40000), of_nat (0x80 + c div 0x1000 mod 0x40),
             of_nat (0x80 + c div 0x40 mod 0x40), of_nat (0x80 + c mod 0x40)]
      else Inl UnicodeEncodeError)"

fun utf8_encode :: "str \<Rightarrow> error + byte list" where
  "utf8_encode [] = Inr []"
| "utf8_encode (c # cs) =
     (case encode_char c of
        Inl e \<Rightarrow> Inl e
      | Inr b \<Rightarrow> (case utf8_encode cs of Inl e \<Rightarrow> Inl e | Inr bs \<Rightarrow> Inr (b @ bs)))"

text \<open>
  The strict decoder: a lead octet announces the length of its sequence, each
  further octet must be a continuation octet (\<open>0x80..0xBF\<close>), and overlong forms,
  surrogates, numbers above \<open>U+10FFFF\<close> and sequences cut short raise
  \<open>UnicodeDecodeError\<close>.
\<close>

definition is_cont :: "byte \<Rightarrow> bool" where
  "is_cont b = (0x80 \<le> unat b \<and> unat b < 0xC0)"

definition cont_bits :: "byte \<Rightarrow> nat" where
  "cont_bits b = unat b mod 0x40"

fun utf8_decode :: "byte list \<Rightarrow> error + str" where
  "utf8_decode [] = Inr []"
| "utf8_decode (b0 # bs) =
     (if unat b0 < 0x80 then
        (case utf8_decode bs of Inl e \<Rightarrow> Inl e | Inr s \<Rightarrow> Inr (unat b0 # s))
      else if 0xC0 \<le> unat b0 \<and> unat b0 < 0xE0 then
        (case bs of
           b1 # r \<Rightarrow>
             (let c = (unat b0 mod 0x20) * 0x40 + cont_bits b1 in
              if is_cont b1 \<and> 0x80 \<le> c then
                (case utf8_decode r of Inl e \<Rightarrow> Inl e | Inr s \<Rightarrow> Inr (c # s))
              else Inl UnicodeDecodeError)
         | _ \<Rightarrow> Inl UnicodeDecodeError)
      else if 0xE0 \<le> unat b0 \<and> unat b0 < 0xF0 then
        (case bs of
           b1 # b2 # r \<Rightarrow>
             (let c = (unat b0 mod 0x10) * 0x1000 + cont_bits b1 * 0x40 + cont_bits b2 in
              if is_cont b1 \<and> is_cont b2 \<and> 0x800 \<le> c \<and> \<not> (0xD800 \<le> c \<and> c < 0xE000) then
                (case utf8_decode r of Inl e \<Rightarrow> Inl e | Inr s \<Rightarrow> Inr (c # s))
              else Inl UnicodeDecodeError)
         | _ \<Rightarrow> Inl UnicodeDecodeError)
      else if 0xF0 \<le> unat b0 \<and> unat b0 < 0xF8 then
        (case bs of
           b1 # b2 # b3 # r \<Rightarrow>
             (let c = (unat b0 mod 0x08) * 0x40000 + cont_bits b1 * 0x1000
                      + cont_bits b2 * 0x40 + cont_bits b3 in
              if is_cont b1 \<and> is_cont b2 \<and> is_cont b3 \<and> 0x10000 \<le> c \<and> c < 0x110000 then
                (case utf8_decode r of Inl e \<Rightarrow> Inl e | Inr s \<Rightarrow> Inr (c # s))
              else Inl UnicodeDecodeError)
         | _ \<Rightarrow> Inl UnicodeDecodeError)
      else Inl UnicodeDecodeError)"

subsection \<open>The outside world\<close>

text \<open>
  What the program cannot decide is a parameter of the run:
  \<^item> \<open>socket_error\<close>: the \<open>errno\<close> with which \<open>socket(AF_INET, SOCK_STREAM)\<close>
    fails, if it does;
  \<^item> \<open>connect_error\<close>: the \<open>errno\<close> with which \<open>connect\<close> to an address fails
    (\<open>None\<close>: the peer accepts);
  \<^item> \<open>stdin\<close>: the characters waiting on standard input;
  \<^item> \<open>send_result\<close>: what one \<open>send\<close> system call does with the buffer it is
    given: an \<open>errno\<close>, or the number of octets the kernel takes;
  \<^item> \<open>recv_ready\<close>: given the octets the connection has carried to the peer, what
    the blocking receive finds: an \<open>errno\<close>, or the octets of the peer that have
    arrived when it returns;
  \<^item> \<open>stdout_encodes\<close>: which code points above ASCII the encoding of standard
    output can represent (all of them for UTF-8, none for ASCII).
\<close>

record world =
  socket_error :: "nat option"
  connect_error :: "address \<Rightarrow> nat option"
  stdin :: str
  send_result :: "byte list \<Rightarrow> nat + nat"
  recv_ready :: "byte list \<Rightarrow> nat + byte list"
  stdout_encodes :: "codepoint \<Rightarrow> bool"

subsection \<open>The trace of a run\<close>

text \<open>
  One event per executed call of the program, in the order of execution, each with
  its arguments and its outcome. \<open>Sendall\<close> lists the chunk written by each
  \<open>send\<close> system call that \<open>sendall\<close> made. \<open>Input\<close> holds the prompt, which
  \<open>input\<close> writes to standard output, and the line read. \<open>Print\<close> holds the text
  that \<open>print\<close> wrote to standard output before it returned or raised.
\<close>

datatype event =
    Socket "error option"
  | Connect address "error option"
  | Input str "error + str"
  | Encode str "error + byte list"
  | Sendall "byte list" "byte list list" "error option"
  | Recv nat "error + byte list"
  | Decode "byte list" "error + str"
  | Print str "error option"

fun failure :: "event \<Rightarrow> error option" where
  "failure (Socket r) = r"
| "failure (Connect a r) = r"
| "failure (Input p r) = (case r of Inl e \<Rightarrow> Some e | Inr _ \<Rightarrow> None)"
| "failure (Encode s r) = (case r of Inl e \<Rightarrow> Some e | Inr _ \<Rightarrow> None)"
| "failure (Sendall b cs r) = r"
| "failure (Recv n r) = (case r of Inl e \<Rightarrow> Some e | Inr _ \<Rightarrow> None)"
| "failure (Decode b r) = (case r of Inl e \<Rightarrow> Some e | Inr _ \<Rightarrow> None)"
| "failure (Print t r) = r"

datatype stage =
  At_socket | At_connect | At_input | At_encode | At_sendall | At_recv | At_decode | At_print

fun stage_of :: "event \<Rightarrow> stage" where
  "stage_of (Socket r) = At_socket"
| "stage_of (Connect a r) = At_connect"
| "stage_of (Input p r) = At_input"
| "stage_of (Encode s r) = At_encode"
| "stage_of (Sendall b cs r) = At_sendall"
| "stage_of (Recv n r) = At_recv"
| "stage_of (Decode b r) = At_decode"
| "stage_of (Print t r) = At_print"

text \<open>
  A computation yields the events it logged and either the exception that ended it
  or its value. Sequencing stops at the first exception: the program has no
  \<open>try\<close> statement, so nothing after a raising call runs.
\<close>

type_synonym 'a step = "event list \<times> (error + 'a)"

definition bind :: "'a step \<Rightarrow> ('a \<Rightarrow> 'b step) \<Rightarrow> 'b step" where
  "bind m f =
     (case m of
        (t, Inl e) \<Rightarrow> (t, Inl e)
      | (t, Inr x) \<Rightarrow> (case f x of (t', r) \<Rightarrow> (t @ t', r)))"

subsection \<open>The calls of the program\<close>

definition op_socket :: "world \<Rightarrow> unit step" where
  "op_socket w =
     (case socket_error w of
        Some n \<Rightarrow> ([Socket (Some (OSError n))], Inl (OSError n))
      | None \<Rightarrow> ([Socket None], Inr ()))"

definition op_connect :: "world \<Rightarrow> address \<Rightarrow> unit step" where
  "op_connect w addr =
     (case connect_error w addr of
        Some n \<Rightarrow> ([Connect addr (Some (OSError n))], Inl (OSError n))
      | None \<Rightarrow> ([Connect addr None], Inr ()))"

text \<open>
  \<open>input(prompt)\<close> writes the prompt to standard output without a newline, then
  reads one line and returns it without its newline; with nothing left to read it
  raises \<open>EOFError\<close>. The prompt of this program is ASCII, which every encoding
  of standard output represents.
\<close>

definition read_line :: "str \<Rightarrow> error + str" where
  "read_line raw = (if raw = [] then Inl EOFError else Inr (takeWhile (\<lambda>c. c \<noteq> 10) raw))"

definition op_input :: "world \<Rightarrow> str \<Rightarrow> str step" where
  "op_input w prompt = ([Input prompt (read_line (stdin w))], read_line (stdin w))"

definition op_encode :: "str \<Rightarrow> (byte list) step" where
  "op_encode s = ([Encode s (utf8_encode s)], utf8_encode s)"

text \<open>
  \<open>sock.sendall(data)\<close> calls \<open>send\<close> on what is left of the buffer until nothing
  is left, or until a call fails; it calls \<open>send\<close> once even on an empty buffer.
  A blocking \<open>send\<close> that returns takes at least one octet of a non-empty buffer
  and never more than it was given. The result lists the chunks written.
\<close>

function sendall :: "world \<Rightarrow> byte list \<Rightarrow> byte list list \<times> nat option" where
  "sendall w buf =
     (case send_result w buf of
        Inl errno \<Rightarrow> ([], Some errno)
      | Inr k \<Rightarrow>
          (let n = min (length buf) (max 1 k) in
           if length buf \<le> n then ([take n buf], None)
           else (case sendall w (drop n buf) of (chunks, r) \<Rightarrow> (take n buf # chunks, r))))"
  by pat_completeness auto
termination
  by (relation "measure (\<lambda>(w, buf). length buf)") auto

declare sendall.simps [simp del]

text \<open>
  To the program \<open>sendall\<close> returns nothing. The model hands on the state of the
  connection: the octets it has carried to the peer, which are what the peer
  answers to.
\<close>

definition op_sendall :: "world \<Rightarrow> byte list \<Rightarrow> (byte list) step" where
  "op_sendall w buf =
     (case sendall w buf of
        (chunks, Some n) \<Rightarrow> ([Sendall buf chunks (Some (OSError n))], Inl (OSError n))
      | (chunks, None) \<Rightarrow> ([Sendall buf chunks None], Inr (concat chunks)))"

text \<open>
  \<open>sock.recv(n)\<close> is one receive: at most \<open>n\<close> of the octets that have arrived.
  \<open>wire\<close> is what the connection has carried to the peer so far. Asked for zero
  octets, \<open>recv\<close> returns the empty byte string at once, without a system call:
  it neither waits for the peer nor sees an error pending on the socket.
\<close>

definition op_recv :: "world \<Rightarrow> byte list \<Rightarrow> nat \<Rightarrow> (byte list) step" where
  "op_recv w wire n =
     (if n = 0 then ([Recv 0 (Inr [])], Inr [])
      else
        (case recv_ready w wire of
           Inl errno \<Rightarrow> ([Recv n (Inl (OSError errno))], Inl (OSError errno))
         | Inr avail \<Rightarrow> ([Recv n (Inr (take n avail))], Inr (take n avail))))"

definition op_decode :: "byte list \<Rightarrow> str step" where
  "op_decode b = ([Decode b (utf8_decode b)], utf8_decode b)"

text \<open>
  \<open>print(a, b)\<close> writes its first argument, one space, its second argument and a
  newline to standard output, each with a write of its own. A write whose text
  the encoding of standard output cannot represent raises \<open>UnicodeEncodeError\<close>
  and writes nothing; what the earlier writes wrote stays written.
\<close>

definition encodable :: "world \<Rightarrow> codepoint \<Rightarrow> bool" where
  "encodable w c = (c < 128 \<or> stdout_encodes w c)"

fun write_all :: "(codepoint \<Rightarrow> bool) \<Rightarrow> str list \<Rightarrow> str \<times> error option" where
  "write_all ok [] = ([], None)"
| "write_all ok (t # ts) =
     (if list_all ok t then (case write_all ok ts of (out, r) \<Rightarrow> (t @ out, r))
      else ([], Some UnicodeEncodeError))"

definition op_print :: "world \<Rightarrow> str \<Rightarrow> str \<Rightarrow> unit step" where
  "op_print w a b =
     (case write_all (encodable w) [a, [32], b, [10]] of
        (out, Some e) \<Rightarrow> ([Print out (Some e)], Inl e)
      | (out, None) \<Rightarrow> ([Print out None], Inr ()))"

subsection \<open>The program\<close>

definition main :: "world \<Rightarrow> address \<Rightarrow> unit step" where
  "main w addr =
     bind (op_socket w) (\<lambda>sock.
     bind (op_connect w addr) (\<lambda>_.
     bind (op_input w (str_of ''Say >'')) (\<lambda>msg.
     bind (op_encode msg) (\<lambda>data.
     bind (op_sendall w data) (\<lambda>wire.
     bind (op_recv w wire (length msg)) (\<lambda>response.
     bind (op_decode response) (\<lambda>decoded.
     op_print w (str_of ''Received >'') decoded)))))))"

text \<open>The script's last line calls \<open>main\<close> with the fixed address.\<close>

definition program :: "world \<Rightarrow> unit step" where
  "program w = main w (''localhost'', 12345)"

text \<open>What an observer of a run sees.\<close>

definition trace :: "'a step \<Rightarrow> event list" where
  "trace r = fst r"

definition status :: "'a step \<Rightarrow> error + 'a" where
  "status r = snd r"

text \<open>An uncaught exception ends the interpreter with status 1, a normal end with 0.\<close>

definition exit_status :: "'a step \<Rightarrow> nat" where
  "exit_status r = (case status r of Inl e \<Rightarrow> 1 | Inr x \<Rightarrow> 0)"

text \<open>The texts of the \<open>print\<close> calls that returned.\<close>

definition printed :: "'a step \<Rightarrow> str list" where
  "printed r = concat (map (\<lambda>ev. case ev of Print t None \<Rightarrow> [t] | _ \<Rightarrow> []) (trace r))"

text \<open>
  Standard output: the prompts that \<open>input\<close> wrote and what \<open>print\<close> wrote, in
  the order of the calls. The number of lines a text holds (each line ends with a
  line feed, code point 10).
\<close>

definition stdout :: "'a step \<Rightarrow> str" where
  "stdout r =
     concat (map (\<lambda>ev. case ev of Input p x \<Rightarrow> p | Print t e \<Rightarrow> t | _ \<Rightarrow> []) (trace r))"

definition line_count :: "str \<Rightarrow> nat" where
  "line_count t = length (filter (\<lambda>c. c = 10) t)"

text \<open>
  Observations on the socket: the chunks written by the \<open>send\<close> system calls, the
  octets put on the wire, the counts asked of \<open>recv\<close> and the octets it returned.
\<close>

definition send_calls :: "'a step \<Rightarrow> byte list list" where
  "send_calls r = concat (map (\<lambda>ev. case ev of Sendall b cs e \<Rightarrow> cs | _ \<Rightarrow> []) (trace r))"

definition transmitted :: "'a step \<Rightarrow> byte list" where
  "transmitted r = concat (send_calls r)"

definition recv_requests :: "'a step \<Rightarrow> nat list" where
  "recv_requests r = concat (map (\<lambda>ev. case ev of Recv n x \<Rightarrow> [n] | _ \<Rightarrow> []) (trace r))"

definition received :: "'a step \<Rightarrow> byte list list" where
  "received r = concat (map (\<lambda>ev. case ev of Recv n (Inr b) \<Rightarrow> [b] | _ \<Rightarrow> []) (trace r))"

subsection \<open>Some worlds\<close>

text \<open>
  A reachable peer, a kernel that takes a whole buffer in one \<open>send\<close> and a
  standard output in UTF-8; standard input holds \<open>raw\<close>, and \<open>reply\<close> maps what
  was transmitted to what has arrived when the receive returns.
\<close>

definition peer_world :: "str \<Rightarrow> (byte list \<Rightarrow> nat + byte list) \<Rightarrow> world" where
  "peer_world raw reply =
     \<lparr>socket_error = None, connect_error = (\<lambda>a. None), stdin = raw,
      send_result = (\<lambda>b. Inr (length b)), recv_ready = reply,
      stdout_encodes = (\<lambda>c. True)\<rparr>"

text \<open>The user types \<open>hello\<close> and the peer echoes all of it.\<close>

definition hello_world :: world where
  "hello_world = peer_world (str_of ''hello'' @ [10]) (\<lambda>b. Inr b)"

text \<open>The user types \<open>hello\<close>; only three octets of the echo have arrived.\<close>

definition short_echo_world :: world where
  "short_echo_world = peer_world (str_of ''hello'' @ [10]) (\<lambda>b. Inr (take 3 b))"

text \<open>The user types \<open>U+00E9\<close> (two octets in UTF-8); one octet of the echo arrives.\<close>

definition cut_echo_world :: world where
  "cut_echo_world = peer_world [0xE9, 10] (\<lambda>b. Inr (take 1 b))"

text \<open>The user types \<open>U+00E9\<close> and the peer echoes all of it.\<close>

definition accent_world :: world where
  "accent_world = peer_world [0xE9, 10] (\<lambda>b. Inr b)"

text \<open>The user types \<open>a\<close>; the peer answers with a line feed.\<close>

definition newline_reply_world :: world where
  "newline_reply_world = peer_world [97, 10] (\<lambda>b. Inr [10])"

text \<open>Nobody listens: \<open>connect\<close> fails with \<open>ECONNREFUSED\<close> (111).\<close>

definition refused_world :: world where
  "refused_world = (peer_world (str_of ''hello'' @ [10]) (\<lambda>b. Inr b))
     \<lparr>connect_error := (\<lambda>a. Some 111)\<rparr>"

text \<open>The kernel takes one octet per \<open>send\<close>; the peer echoes.\<close>

definition trickle_world :: world where
  "trickle_world = (peer_world (str_of ''hello'' @ [10]) (\<lambda>b. Inr b))
     \<lparr>send_result := (\<lambda>b. Inr 1)\<rparr>"

text \<open>
  The user types \<open>U+00E9\<close> and \<open>a\<close> (three octets in UTF-8); two octets of the
  echo arrive, a whole \<open>U+00E9\<close>; standard output is in ASCII.
\<close>

definition ascii_stdout_world :: world where
  "ascii_stdout_world = (peer_world [0xE9, 97, 10] (\<lambda>b. Inr (take 2 b)))
     \<lparr>stdout_encodes := (\<lambda>c. False)\<rparr>"

text \<open>
  The user enters an empty line. In the first world the peer has reset the
  connection after the \<open>send\<close>: a receive that reaches the socket fails with
  \<open>ECONNRESET\<close> (104). In the second the reset comes earlier and \<open>send\<close> fails
  with it. In the third the user types \<open>hello\<close> and the receive fails with
  \<open>ECONNRESET\<close>.
\<close>

definition empty_line_world :: world where
  "empty_line_world = peer_world [10] (\<lambda>b. Inl 104)"

definition reset_on_send_world :: world where
  "reset_on_send_world = (peer_world [10] (\<lambda>b. Inr b))\<lparr>send_result := (\<lambda>b. Inl 104)\<rparr>"

definition reset_on_recv_world :: world where
  "reset_on_recv_world = peer_world (str_of ''hello'' @ [10]) (\<lambda>b. Inl 104)"

section \<open>Properties of the codec and of \<open>sendall\<close>\<close>

lemmas op_defs = op_socket_def op_connect_def op_input_def op_encode_def op_sendall_def
  op_recv_def op_decode_def op_print_def encodable_def

lemmas view_defs = trace_def status_def exit_status_def printed_def stdout_def line_count_def
  send_calls_def transmitted_def recv_requests_def received_def

lemmas world_defs = peer_world_def hello_world_def short_echo_world_def cut_echo_world_def
  accent_world_def newline_reply_world_def refused_world_def trickle_world_def
  ascii_stdout_world_def empty_line_world_def reset_on_send_world_def reset_on_recv_world_def

lemmas eval_defs = program_def main_def bind_def op_defs world_defs read_line_def
  str_of_def encode_char_def sendall.simps







lemma encode_char_length:
  "encode_char c = Inr b \<Longrightarrow> 1 \<le> length b \<and> (length b = 1 \<longleftrightarrow> c < 128)"
  by (auto simp: encode_char_def split: if_splits)

lemma utf8_encode_length:
  "utf8_encode s = Inr bs \<Longrightarrow> length s \<le> length bs \<and> (length s = length bs \<longleftrightarrow> is_ascii s)"
proof (induction s arbitrary: bs)
  case Nil
  then show ?case by (simp add: is_ascii_def)
next
  case (Cons c cs)
  from Cons.prems obtain b bs' where b: "encode_char c = Inr b"
    and bs': "utf8_encode cs = Inr bs'" and bs: "bs = b @ bs'"
    by (auto split: sum.splits)
  from encode_char_length [OF b] Cons.IH [OF bs'] show ?case
    by (auto simp: bs is_ascii_def)
qed

text \<open>When \<open>sendall\<close> returns without an error, the chunks it wrote are the buffer.\<close>

lemma sendall_complete: "sendall w buf = (cs, None) \<Longrightarrow> concat cs = buf"
proof (induction w buf arbitrary: cs rule: sendall.induct)
  case (1 w buf)
  show ?case
  proof (cases "send_result w buf")
    case (Inl errno)
    with "1.prems" show ?thesis by (simp add: sendall.simps [of w buf])
  next
    case (Inr k)
    let ?n = "min (length buf) (max 1 k)"
    show ?thesis
    proof (cases "length buf \<le> ?n")
      case True
      with "1.prems" Inr have "cs = [take ?n buf]"
        by (simp add: sendall.simps [of w buf] Let_def
            del: min.absorb1 min.absorb2 min.absorb3 min.absorb4)
      with True show ?thesis by simp
    next
      case False
      obtain cs' r where rest: "sendall w (drop ?n buf) = (cs', r)"
        by (cases "sendall w (drop ?n buf)")
      with "1.prems" Inr False have cs: "cs = take ?n buf # cs'" and r: "r = None"
        by (simp_all add: sendall.simps [of w buf] Let_def)
      from "1.IH" [OF Inr refl False] rest r have "concat cs' = drop ?n buf"
        by simp
      then show ?thesis by (simp add: cs)
    qed
  qed
qed


text \<open>
  Decoding undoes encoding: whatever the encoder produces, the strict decoder
  accepts and maps back to the same code points.
\<close>

lemma unat_byte: "x < 256 \<Longrightarrow> unat (of_nat x :: byte) = x"
  by (simp add: unat_of_nat)

lemma cont_octet:
  "is_cont (of_nat (0x80 + x mod 0x40))"
  "cont_bits (of_nat (0x80 + x mod 0x40)) = x mod 0x40"
proof -
  have "x mod 0x40 < 0x40"
    by simp
  then have r: "0x80 + x mod 0x40 < 256" "0x80 \<le> 0x80 + x mod 0x40" "0x80 + x mod 0x40 < 0xC0"
    by linarith+
  then show "is_cont (of_nat (0x80 + x mod 0x40))"
    by (simp add: is_cont_def unat_byte del: of_nat_add)
  from r show "cont_bits (of_nat (0x80 + x mod 0x40)) = x mod 0x40"
    by (simp add: cont_bits_def unat_byte mod_add_eq [symmetric] del: of_nat_add)
qed

lemma lead_octet:
  assumes "x < m" and "base + m \<le> 256" and "m dvd base"
  shows "unat (of_nat (base + x) :: byte) = base + x"
    and "(base + x) mod m = x"
proof -
  from assms(1,2) have "base + x < 256"
    by linarith
  then show "unat (of_nat (base + x) :: byte) = base + x"
    by (rule unat_byte)
  from assms(1,3) show "(base + x) mod m = x"
    by (simp add: mod_add_eq [symmetric])
qed

lemma regroup: "(a * 0x40 + b) * k + d = a * (0x40 * k) + b * k + (d::nat)"
  by (simp add: algebra_simps)

lemma digits3: "(c::nat) div 0x1000 * 0x1000 + c div 0x40 mod 0x40 * 0x40 + c mod 0x40 = c"
proof -
  have d: "c div 0x1000 = c div 0x40 div 0x40"
    by (simp add: div_mult2_eq [symmetric])
  have e1: "c div 0x40 div 0x40 * 0x40 + c div 0x40 mod 0x40 = c div 0x40"
    by simp
  have e2: "c div 0x40 * 0x40 + c mod 0x40 = c"
    by simp
  have "c div 0x40 div 0x40 * 0x1000 + c div 0x40 mod 0x40 * 0x40 + c mod 0x40
        = (c div 0x40 div 0x40 * 0x40 + c div 0x40 mod 0x40) * 0x40 + c mod 0x40"
    using regroup [of "c div 0x40 div 0x40" "c div 0x40 mod 0x40" "0x40" "c mod 0x40"]
    by (simp only: mult_numeral_left_semiring_numeral num.simps numeral_times_numeral
        semiring_norm)
  also have "\<dots> = c"
    by (simp only: e1 e2)
  finally show ?thesis
    by (simp only: d)
qed

lemma digits4:
  "(c::nat) div 0x40000 * 0x40000 + c div 0x1000 mod 0x40 * 0x1000
     + c div 0x40 mod 0x40 * 0x40 + c mod 0x40 = c"
proof -
  have d: "c div 0x40000 = c div 0x1000 div 0x40"
    by (simp add: div_mult2_eq [symmetric])
  have e1: "c div 0x1000 div 0x40 * 0x40 + c div 0x1000 mod 0x40 = c div 0x1000"
    by simp
  have "c div 0x1000 div 0x40 * 0x40000 + c div 0x1000 mod 0x40 * 0x1000
          + (c div 0x40 mod 0x40 * 0x40 + c mod 0x40)
        = (c div 0x1000 div 0x40 * 0x40 + c div 0x1000 mod 0x40) * 0x1000
          + (c div 0x40 mod 0x40 * 0x40 + c mod 0x40)"
    using regroup [of "c div 0x1000 div 0x40" "c div 0x1000 mod 0x40" "0x1000"
        "c div 0x40 mod 0x40 * 0x40 + c mod 0x40"]
    by (simp only: mult_numeral_left_semiring_numeral num.simps numeral_times_numeral
        semiring_norm)
  also have "\<dots> = c"
    using digits3 [of c] by (simp only: e1 add.assoc)
  finally show ?thesis
    by (simp only: d add.assoc)
qed

lemma decode_one:
  assumes "unat b0 < 0x80"
  shows "utf8_decode (b0 # rest) =
           (case utf8_decode rest of Inl e \<Rightarrow> Inl e | Inr s \<Rightarrow> Inr (unat b0 # s))"
  using assms by simp

lemma decode_two:
  assumes "0xC0 \<le> unat b0" and "unat b0 < 0xE0" and "is_cont b1"
    and "c = unat b0 mod 0x20 * 0x40 + cont_bits b1" and "0x80 \<le> c"
  shows "utf8_decode (b0 # b1 # rest) =
           (case utf8_decode rest of Inl e \<Rightarrow> Inl e | Inr s \<Rightarrow> Inr (c # s))"
  using assms by (simp add: Let_def split: sum.splits)

lemma decode_three:
  assumes "0xE0 \<le> unat b0" and "unat b0 < 0xF0" and "is_cont b1" and "is_cont b2"
    and "c = unat b0 mod 0x10 * 0x1000 + cont_bits b1 * 0x40 + cont_bits b2"
    and "0x800 \<le> c" and "\<not> (0xD800 \<le> c \<and> c < 0xE000)"
  shows "utf8_decode (b0 # b1 # b2 # rest) =
           (case utf8_decode rest of Inl e \<Rightarrow> Inl e | Inr s \<Rightarrow> Inr (c # s))"
  using assms by (simp add: Let_def split: sum.splits)

lemma decode_four:
  assumes "0xF0 \<le> unat b0" and "unat b0 < 0xF8"
    and "is_cont b1" and "is_cont b2" and "is_cont b3"
    and "c = unat b0 mod 0x08 * 0x40000 + cont_bits b1 * 0x1000 + cont_bits b2 * 0x40
               + cont_bits b3"
    and "0x10000 \<le> c" and "c < 0x110000"
  shows "utf8_decode (b0 # b1 # b2 # b3 # rest) =
           (case utf8_decode rest of Inl e \<Rightarrow> Inl e | Inr s \<Rightarrow> Inr (c # s))"
  using assms by (simp add: Let_def split: sum.splits)

lemma decode_after_encode_char:
  assumes "encode_char c = Inr b"
  shows "utf8_decode (b @ rest) =
           (case utf8_decode rest of Inl e \<Rightarrow> Inl e | Inr s \<Rightarrow> Inr (c # s))"
proof -
  consider (one) "c < 0x80"
    | (two) "0x80 \<le> c" "c < 0x800"
    | (three) "0x800 \<le> c" "c < 0x10000" "\<not> (0xD800 \<le> c \<and> c < 0xE000)"
    | (four) "0x10000 \<le> c" "c < 0x110000"
    using assms by (auto simp: encode_char_def split: if_splits)
  then show ?thesis
  proof cases
    case one
    with assms have b: "b = [of_nat c]"
      by (simp add: encode_char_def)
    from one have u: "unat (of_nat c :: byte) = c"
      by (simp add: unat_byte)
    from one show ?thesis
      unfolding b append_Cons append_Nil using decode_one [of "of_nat c" rest]
      by (simp only: u)
  next
    case two
    with assms have b: "b = [of_nat (0xC0 + c div 0x40), of_nat (0x80 + c mod 0x40)]"
      by (simp add: encode_char_def)
    from two have "c div 0x40 < 0x20"
      by (simp add: div_less_iff_less_mult)
    note lead = lead_octet [OF this, of "0xC0"]
    have u0: "unat (of_nat (0xC0 + c div 0x40) :: byte) = 0xC0 + c div 0x40"
      and m0: "(0xC0 + c div 0x40) mod 0x20 = c div 0x40"
      by (rule lead; simp)+
    have val: "c = (0xC0 + c div 0x40) mod 0x20 * 0x40 + c mod 0x40"
      by (simp only: m0) simp
    show ?thesis
      unfolding b append_Cons append_Nil
    proof (rule decode_two)
      show "0xC0 \<le> unat (of_nat (0xC0 + c div 0x40) :: byte)"
        and "unat (of_nat (0xC0 + c div 0x40) :: byte) < 0xE0"
        unfolding u0 using \<open>c div 0x40 < 0x20\<close> by simp_all
      show "c = unat (of_nat (0xC0 + c div 0x40) :: byte) mod 0x20 * 0x40
                  + cont_bits (of_nat (0x80 + c mod 0x40))"
        unfolding u0 cont_octet by (rule val)
    qed (rule cont_octet two)+
  next
    case three
    with assms have b: "b = [of_nat (0xE0 + c div 0x1000), of_nat (0x80 + c div 0x40 mod 0x40),
             of_nat (0x80 + c mod 0x40)]"
      by (simp add: encode_char_def)
    from three have small: "c div 0x1000 < 0x10"
      by (simp add: div_less_iff_less_mult)
    note lead = lead_octet [OF this, of "0xE0"]
    have u0: "unat (of_nat (0xE0 + c div 0x1000) :: byte) = 0xE0 + c div 0x1000"
      and m0: "(0xE0 + c div 0x1000) mod 0x10 = c div 0x1000"
      by (rule lead; simp)+
    have val: "c = (0xE0 + c div 0x1000) mod 0x10 * 0x1000 + c div 0x40 mod 0x40 * 0x40
                     + c mod 0x40"
      by (simp only: m0 digits3)
    show ?thesis
      unfolding b append_Cons append_Nil
    proof (rule decode_three)
      show "0xE0 \<le> unat (of_nat (0xE0 + c div 0x1000) :: byte)"
        and "unat (of_nat (0xE0 + c div 0x1000) :: byte) < 0xF0"
        unfolding u0 using small by simp_all
      show "c = unat (of_nat (0xE0 + c div 0x1000) :: byte) mod 0x10 * 0x1000
                  + cont_bits (of_nat (0x80 + c div 0x40 mod 0x40)) * 0x40
                  + cont_bits (of_nat (0x80 + c mod 0x40))"
        unfolding u0 cont_octet by (rule val)
    qed (rule cont_octet three)+
  next
    case four
    with assms have b: "b = [of_nat (0xF0 + c div 0x40000), of_nat (0x80 + c div 0x1000 mod 0x40),
             of_nat (0x80 + c div 0x40 mod 0x40), of_nat (0x80 + c mod 0x40)]"
      by (simp add: encode_char_def)
    from four have small: "c div 0x40000 < 0x08"
      by (simp add: div_less_iff_less_mult)
    note lead = lead_octet [OF this, of "0xF0"]
    have u0: "unat (of_nat (0xF0 + c div 0x40000) :: byte) = 0xF0 + c div 0x40000"
      and m0: "(0xF0 + c div 0x40000) mod 0x08 = c div 0x40000"
      by (rule lead; simp)+
    have val: "c = (0xF0 + c div 0x40000) mod 0x08 * 0x40000 + c div 0x1000 mod 0x40 * 0x1000
                     + c div 0x40 mod 0x40 * 0x40 + c mod 0x40"
      by (simp only: m0 digits4)
    show ?thesis
      unfolding b append_Cons append_Nil
    proof (rule decode_four)
      show "0xF0 \<le> unat (of_nat (0xF0 + c div 0x40000) :: byte)"
        and "unat (of_nat (0xF0 + c div 0x40000) :: byte) < 0xF8"
        unfolding u0 using small by simp_all
      show "c = unat (of_nat (0xF0 + c div 0x40000) :: byte) mod 0x08 * 0x40000
                  + cont_bits (of_nat (0x80 + c div 0x1000 mod 0x40)) * 0x1000
                  + cont_bits (of_nat (0x80 + c div 0x40 mod 0x40)) * 0x40
                  + cont_bits (of_nat (0x80 + c mod 0x40))"
        unfolding u0 cont_octet by (rule val)
    qed (rule cont_octet four)+
  qed
qed

lemma utf8_roundtrip: "utf8_encode s = Inr bs \<Longrightarrow> utf8_decode bs = Inr s"
proof (induction s arbitrary: bs)
  case Nil
  then show ?case by simp
next
  case (Cons c cs)
  from Cons.prems obtain b bs' where b: "encode_char c = Inr b"
    and bs': "utf8_encode cs = Inr bs'" and bs: "bs = b @ bs'"
    by (auto split: sum.splits)
  show ?case
    by (simp add: bs decode_after_encode_char [OF b] Cons.IH [OF bs'])
qed

section \<open>The shape of a run\<close>


lemma print_returns:
  "list_all (encodable w) d \<Longrightarrow>
     op_print w (str_of ''Received >'') d =
       ([Print (str_of ''Received > '' @ d @ [10]) None], Inr ())"
  by (simp add: op_print_def encodable_def str_of_def)

lemma print_raises:
  "\<not> list_all (encodable w) d \<Longrightarrow>
     op_print w (str_of ''Received >'') d =
       ([Print (str_of ''Received > '') (Some UnicodeEncodeError)], Inl UnicodeEncodeError)"
  by (simp add: op_print_def encodable_def str_of_def)

text \<open>
  With a standard output in ASCII, a response that decodes to \<open>U+00E9\<close> makes
  \<open>print\<close> raise after it has written \<open>Received > \<close>.
\<close>

lemma print_raises_on_ascii_stdout:
  "received (program ascii_stdout_world) = [[0xC3, 0xA9]]
   \<and> status (program ascii_stdout_world) = Inl UnicodeEncodeError
   \<and> exit_status (program ascii_stdout_world) = 1
   \<and> printed (program ascii_stdout_world) = []
   \<and> stdout (program ascii_stdout_world) = str_of ''Say >Received > ''"
  by (simp add: eval_defs view_defs is_cont_def cont_bits_def)

text \<open>
  Once the socket exists, the peer has accepted, a line was read and encoded, and
  \<open>sendall\<close> has returned, the connection has carried the whole encoded line, and
  the rest of the run is the receive, the decoder and \<open>print\<close>.
\<close>

lemma main_reaches_recv:
  assumes "socket_error w = None" and "connect_error w addr = None"
    and "read_line (stdin w) = Inr s" and "utf8_encode s = Inr bs"
    and "sendall w bs = (cs, None)"
  shows "main w addr =
    bind ([Socket None, Connect addr None, Input (str_of ''Say >'') (Inr s),
           Encode s (Inr bs), Sendall bs cs None], Inr bs)
      (\<lambda>wire. bind (op_recv w wire (length s)) (\<lambda>response.
         bind (op_decode response) (\<lambda>decoded.
           op_print w (str_of ''Received >'') decoded)))"
  using assms sendall_complete [OF assms(5)]
  by (simp add: main_def bind_def op_socket_def op_connect_def op_input_def op_encode_def
      op_sendall_def split: prod.splits)

lemma sendall_ok_obtain:
  assumes "snd (sendall w bs) = None"
  obtains cs where "sendall w bs = (cs, None)" and "concat cs = bs"
  using assms sendall_complete [of w bs "fst (sendall w bs)"] by (cases "sendall w bs") auto

text \<open>The end of a run from the decoder on, for a response \<open>resp\<close>.\<close>

lemma decode_and_print:
  "bind (op_decode resp) (\<lambda>decoded. op_print w (str_of ''Received >'') decoded) =
     (case utf8_decode resp of
        Inl e \<Rightarrow> ([Decode resp (Inl e)], Inl e)
      | Inr d \<Rightarrow>
          (if list_all (encodable w) d
           then ([Decode resp (Inr d), Print (str_of ''Received > '' @ d @ [10]) None], Inr ())
           else ([Decode resp (Inr d), Print (str_of ''Received > '') (Some UnicodeEncodeError)],
                 Inl UnicodeEncodeError)))"
  by (simp add: bind_def op_decode_def print_returns print_raises split: sum.splits)

lemma run_after_recv:
  assumes "socket_error w = None" and "connect_error w addr = None"
    and "read_line (stdin w) = Inr s" and "utf8_encode s = Inr bs"
    and "sendall w bs = (cs, None)"
    and "op_recv w bs (length s) = ([Recv (length s) (Inr resp)], Inr resp)"
  shows "main w addr =
    (case utf8_decode resp of
       Inl e \<Rightarrow>
         ([Socket None, Connect addr None, Input (str_of ''Say >'') (Inr s),
           Encode s (Inr bs), Sendall bs cs None, Recv (length s) (Inr resp),
           Decode resp (Inl e)], Inl e)
     | Inr d \<Rightarrow>
         (if list_all (encodable w) d
          then ([Socket None, Connect addr None, Input (str_of ''Say >'') (Inr s),
                 Encode s (Inr bs), Sendall bs cs None, Recv (length s) (Inr resp),
                 Decode resp (Inr d), Print (str_of ''Received > '' @ d @ [10]) None], Inr ())
          else ([Socket None, Connect addr None, Input (str_of ''Say >'') (Inr s),
                 Encode s (Inr bs), Sendall bs cs None, Recv (length s) (Inr resp),
                 Decode resp (Inr d),
                 Print (str_of ''Received > '') (Some UnicodeEncodeError)],
                Inl UnicodeEncodeError)))"
proof -
  have "main w addr =
    bind ([Socket None, Connect addr None, Input (str_of ''Say >'') (Inr s),
           Encode s (Inr bs), Sendall bs cs None, Recv (length s) (Inr resp)], Inr resp)
      (\<lambda>response. bind (op_decode response) (\<lambda>decoded.
           op_print w (str_of ''Received >'') decoded))"
    by (simp add: main_reaches_recv [OF assms(1-5)] bind_def assms(6)
        split: prod.splits sum.splits)
  then show ?thesis
    by (simp add: bind_def [of "(_, Inr resp)"] decode_and_print split: sum.splits)
qed

lemma run_recv_raises:
  assumes "socket_error w = None" and "connect_error w addr = None"
    and "read_line (stdin w) = Inr s" and "utf8_encode s = Inr bs"
    and "sendall w bs = (cs, None)"
    and "s \<noteq> []" and "recv_ready w bs = Inl n"
  shows "main w addr =
         ([Socket None, Connect addr None, Input (str_of ''Say >'') (Inr s),
           Encode s (Inr bs), Sendall bs cs None, Recv (length s) (Inl (OSError n))],
          Inl (OSError n))"
  using assms(6,7) by (simp add: main_reaches_recv [OF assms(1-5)] bind_def op_recv_def)


text \<open>The receive either raises, on a line that is not empty, or returns.\<close>

lemma recv_outcome [case_names raises returns]:
  obtains n where "s \<noteq> []" and "recv_ready w bs = Inl n"
  | resp where "op_recv w bs (length s) = ([Recv (length s) (Inr resp)], Inr resp)"
      and "resp = (if s = [] then []
                   else (case recv_ready w bs of
                           Inl n \<Rightarrow> []
                         | Inr avail \<Rightarrow> take (length s) avail))"
proof (cases "s = []")
  case True
  then show ?thesis
    by (intro that(2) [of "[]"]) (simp_all add: op_recv_def)
next
  case False
  show ?thesis
  proof (cases "recv_ready w bs")
    case (Inl n)
    with False show ?thesis
      by (intro that(1) [of n])
  next
    case (Inr avail)
    with False show ?thesis
      by (intro that(2) [of "take (length s) avail"]) (simp_all add: op_recv_def)
  qed
qed

text \<open>
  Every run is one of nine: a failure at one of the eight calls that can raise, or
  the whole script.
\<close>

lemma main_cases
  [case_names socket connect input encode sendall recv decode print finished]:
  obtains
    n where "main w addr = ([Socket (Some (OSError n))], Inl (OSError n))"
  | n where "main w addr =
      ([Socket None, Connect addr (Some (OSError n))], Inl (OSError n))"
  | e where "main w addr =
      ([Socket None, Connect addr None, Input (str_of ''Say >'') (Inl e)], Inl e)"
  | s e where "read_line (stdin w) = Inr s" and "main w addr =
      ([Socket None, Connect addr None, Input (str_of ''Say >'') (Inr s),
        Encode s (Inl e)], Inl e)"
  | s bs cs n where "read_line (stdin w) = Inr s" and "utf8_encode s = Inr bs"
      and "main w addr =
      ([Socket None, Connect addr None, Input (str_of ''Say >'') (Inr s),
        Encode s (Inr bs), Sendall bs cs (Some (OSError n))], Inl (OSError n))"
  | s bs cs n where "read_line (stdin w) = Inr s" and "utf8_encode s = Inr bs"
      and "sendall w bs = (cs, None)" and "main w addr =
      ([Socket None, Connect addr None, Input (str_of ''Say >'') (Inr s),
        Encode s (Inr bs), Sendall bs cs None,
        Recv (length s) (Inl (OSError n))], Inl (OSError n))"
  | s bs cs resp e where "read_line (stdin w) = Inr s" and "utf8_encode s = Inr bs"
      and "sendall w bs = (cs, None)" and "utf8_decode resp = Inl e" and "main w addr =
      ([Socket None, Connect addr None, Input (str_of ''Say >'') (Inr s),
        Encode s (Inr bs), Sendall bs cs None,
        Recv (length s) (Inr resp), Decode resp (Inl e)], Inl e)"
  | s bs cs resp d where "read_line (stdin w) = Inr s" and "utf8_encode s = Inr bs"
      and "sendall w bs = (cs, None)" and "utf8_decode resp = Inr d"
      and "\<not> list_all (encodable w) d" and "main w addr =
      ([Socket None, Connect addr None, Input (str_of ''Say >'') (Inr s),
        Encode s (Inr bs), Sendall bs cs None,
        Recv (length s) (Inr resp), Decode resp (Inr d),
        Print (str_of ''Received > '') (Some UnicodeEncodeError)], Inl UnicodeEncodeError)"
  | s bs cs resp d where "read_line (stdin w) = Inr s" and "utf8_encode s = Inr bs"
      and "sendall w bs = (cs, None)" and "utf8_decode resp = Inr d"
      and "list_all (encodable w) d" and "main w addr =
      ([Socket None, Connect addr None, Input (str_of ''Say >'') (Inr s),
        Encode s (Inr bs), Sendall bs cs None,
        Recv (length s) (Inr resp), Decode resp (Inr d),
        Print (str_of ''Received > '' @ d @ [10]) None], Inr ())"
proof (cases "socket_error w")
  case (Some n)
  then show ?thesis
    by (intro that(1) [of n]) (simp add: main_def bind_def op_socket_def)
next
  case sock: None
  show ?thesis
  proof (cases "connect_error w addr")
    case (Some n)
    with sock show ?thesis
      by (intro that(2) [of n]) (simp add: main_def bind_def op_socket_def op_connect_def)
  next
    case conn: None
    show ?thesis
    proof (cases "read_line (stdin w)")
      case (Inl e)
      with sock conn show ?thesis
        by (intro that(3) [of e])
          (simp add: main_def bind_def op_socket_def op_connect_def op_input_def)
    next
      case line: (Inr s)
      show ?thesis
      proof (cases "utf8_encode s")
        case (Inl e)
        with sock conn line show ?thesis
          by (intro that(4) [of s e])
            (simp_all add: main_def bind_def op_socket_def op_connect_def op_input_def
              op_encode_def)
      next
        case enc: (Inr bs)
        obtain cs r where snd: "sendall w bs = (cs, r)"
          by (cases "sendall w bs")
        show ?thesis
        proof (cases r)
          case (Some n)
          with sock conn line enc snd show ?thesis
            by (intro that(5) [of s bs cs n])
              (simp_all add: main_def bind_def op_socket_def op_connect_def op_input_def
                op_encode_def op_sendall_def)
        next
          case None
          with snd have ok: "sendall w bs = (cs, None)"
            by simp
          show ?thesis
          proof (cases rule: recv_outcome [where s = s and w = w and bs = bs])
            case (raises n)
            with line enc ok show ?thesis
              by (intro that(6) [of s bs cs n])
                (simp_all add: run_recv_raises [OF sock conn line enc ok])
          next
            case (returns resp)
            note run = run_after_recv [OF sock conn line enc ok returns(1)]
            show ?thesis
            proof (cases "utf8_decode resp")
              case (Inl e)
              with line enc ok show ?thesis
                by (intro that(7) [of s bs cs resp e]) (simp_all add: run)
            next
              case dec: (Inr d)
              show ?thesis
              proof (cases "list_all (encodable w) d")
                case True
                with line enc ok dec show ?thesis
                  by (intro that(9) [of s bs cs resp d]) (simp_all add: run)
              next
                case False
                with line enc ok dec show ?thesis
                  by (intro that(8) [of s bs cs resp d]) (simp_all add: run)
              qed
            qed
          qed
        qed
      qed
    qed
  qed
qed

text \<open>
  What the socket saw on a run that got as far as the receive: the count asked
  for, the octets on the wire, the octets returned.
\<close>

lemma run_to_recv_views:
  assumes "socket_error w = None" and "connect_error w addr = None"
    and "read_line (stdin w) = Inr s" and "utf8_encode s = Inr bs"
    and "snd (sendall w bs) = None"
  shows "recv_requests (main w addr) = [length s]"
    and "transmitted (main w addr) = bs"
    and "received (main w addr) =
          (if s = [] then [[]]
           else (case recv_ready w bs of
                   Inl errno \<Rightarrow> []
                 | Inr avail \<Rightarrow> [take (length s) avail]))"
proof -
  from assms(5) obtain cs where cs: "sendall w bs = (cs, None)" and all: "concat cs = bs"
    by (rule sendall_ok_obtain)
  have "recv_requests (main w addr) = [length s]
       \<and> transmitted (main w addr) = bs
       \<and> received (main w addr) =
          (if s = [] then [[]]
           else (case recv_ready w bs of
                   Inl errno \<Rightarrow> []
                 | Inr avail \<Rightarrow> [take (length s) avail]))"
  proof (cases rule: recv_outcome [where s = s and w = w and bs = bs])
    case (raises n)
    then show ?thesis
      by (simp add: run_recv_raises [OF assms(1-4) cs] view_defs all)
  next
    case (returns resp)
    have sent: "recv_ready w bs = Inl n \<Longrightarrow> s = []" for n
    proof (rule ccontr)
      assume n: "recv_ready w bs = Inl n" and "s \<noteq> []"
      with returns(1) show False
        by (simp add: op_recv_def)
    qed
    from returns(2) sent show ?thesis
      by (auto simp: run_after_recv [OF assms(1-4) cs returns(1)] view_defs all
          split: sum.splits)
  qed
  then show "recv_requests (main w addr) = [length s]"
    and "transmitted (main w addr) = bs"
    and "received (main w addr) =
          (if s = [] then [[]]
           else (case recv_ready w bs of
                   Inl errno \<Rightarrow> []
                 | Inr avail \<Rightarrow> [take (length s) avail]))"
    by simp_all
qed


section \<open>The round trip\<close>




section \<open>The size of the receive\<close>

text \<open>
  C2. On every run that gets to the receive, the count passed to the single
  \<open>recv\<close> is the number of characters of the input line, not the number of
  octets of its UTF-8 encoding. All octets of the encoding are transmitted, the
  count is at most their number, the two are equal exactly when the line is pure
  ASCII, and for a line with a non-ASCII character the count is strictly smaller.
\<close>

theorem recv_count_is_character_count:
  assumes "socket_error w = None" and "connect_error w addr = None"
    and "read_line (stdin w) = Inr s" and "utf8_encode s = Inr bs"
    and "snd (sendall w bs) = None"
  shows "recv_requests (main w addr) = [length s]
       \<and> transmitted (main w addr) = bs
       \<and> length s \<le> length bs
       \<and> (length s = length bs \<longleftrightarrow> is_ascii s)
       \<and> (\<not> is_ascii s \<longrightarrow> length s < length bs)"
  using run_to_recv_views(1,2) [OF assms] utf8_encode_length [OF assms(4)] by auto

theorem recv_count_is_character_count_witness:
  "read_line (stdin accent_world) = Inr [0xE9]
   \<and> utf8_encode [0xE9] = Inr [0xC3, 0xA9]
   \<and> \<not> is_ascii [0xE9]
   \<and> recv_requests (main accent_world (''localhost'', 12345)) = [1]
   \<and> transmitted (main accent_world (''localhost'', 12345)) = [0xC3, 0xA9]"
proof -
  have h1: "socket_error accent_world = None"
    and h2: "connect_error accent_world (''localhost'', 12345) = None"
    and h3: "read_line (stdin accent_world) = Inr [0xE9]"
    and h4: "utf8_encode [0xE9] = Inr [0xC3, 0xA9]"
    and h5: "snd (sendall accent_world [0xC3, 0xA9]) = None"
    and h6: "\<not> is_ascii [0xE9]"
    by (simp_all add: world_defs read_line_def is_ascii_def encode_char_def sendall.simps)
  from recv_count_is_character_count [OF h1 h2 h3 h4 h5] h3 h4 h6 show ?thesis
    by simp
qed

text \<open>
  C7. Against an echoing peer (what has arrived when the receive returns is the
  first \<open>k\<close> octets of what was sent, for any \<open>k\<close>), the octets the program
  receives are a prefix of the octets it transmitted, and the count it asks for is
  at most the number of octets transmitted.
\<close>

theorem received_is_prefix_of_sent:
  assumes "socket_error w = None" and "connect_error w addr = None"
    and "read_line (stdin w) = Inr s" and "utf8_encode s = Inr bs"
    and "snd (sendall w bs) = None"
    and "recv_ready w bs = Inr (take k bs)"
  shows "received (main w addr) = [take (length s) (take k bs)]
       \<and> prefix (take (length s) (take k bs)) (transmitted (main w addr))
       \<and> recv_requests (main w addr) = [length s]
       \<and> length s \<le> length (transmitted (main w addr))"
proof -
  have "prefix (take (length s) (take k bs)) bs"
    by (metis take_is_prefix prefix_order.trans)
  with run_to_recv_views [OF assms(1-5)] utf8_encode_length [OF assms(4)] assms(6)
  show ?thesis by simp
qed

theorem received_is_prefix_of_sent_witness:
  "recv_ready accent_world [0xC3, 0xA9] = Inr (take 2 [0xC3, 0xA9])
   \<and> received (main accent_world (''localhost'', 12345)) = [[0xC3]]
   \<and> transmitted (main accent_world (''localhost'', 12345)) = [0xC3, 0xA9]
   \<and> prefix [0xC3] (transmitted (main accent_world (''localhost'', 12345)))"
proof -
  have h1: "socket_error accent_world = None"
    and h2: "connect_error accent_world (''localhost'', 12345) = None"
    and h3: "read_line (stdin accent_world) = Inr [0xE9]"
    and h4: "utf8_encode [0xE9] = Inr [0xC3, 0xA9]"
    and h5: "snd (sendall accent_world [0xC3, 0xA9]) = None"
    and h6: "recv_ready accent_world [0xC3, 0xA9] = Inr (take 2 [0xC3, 0xA9])"
    by (simp_all add: world_defs read_line_def encode_char_def sendall.simps)
  have tr: "transmitted (main accent_world (''localhost'', 12345)) = [0xC3, 0xA9]"
    using run_to_recv_views(2) [OF h1 h2 h3 h4 h5] .
  from received_is_prefix_of_sent [OF h1 h2 h3 h4 h5 h6] h6 tr show ?thesis
    by simp
qed

section \<open>Failures\<close>

text \<open>
  C4. If the peer is unreachable (\<open>connect\<close> raises), the run ends right there
  with that exception: the exit status is not zero, nothing was read from the
  terminal and nothing was printed, so standard output holds no \<open>Received >\<close>
  line.
\<close>

theorem unreachable_server_is_fatal:
  assumes "socket_error w = None" and "connect_error w addr = Some n"
  shows "trace (main w addr) = [Socket None, Connect addr (Some (OSError n))]
       \<and> status (main w addr) = Inl (OSError n)
       \<and> exit_status (main w addr) \<noteq> 0
       \<and> printed (main w addr) = []
       \<and> stdout (main w addr) = []"
  using assms by (simp add: main_def bind_def op_defs view_defs)

theorem unreachable_server_is_fatal_witness:
  "socket_error refused_world = None
   \<and> connect_error refused_world (''localhost'', 12345) = Some 111
   \<and> status (program refused_world) = Inl (OSError 111)
   \<and> exit_status (program refused_world) \<noteq> 0
   \<and> printed (program refused_world) = []"
proof -
  have h1: "socket_error refused_world = None"
    and h2: "connect_error refused_world (''localhost'', 12345) = Some 111"
    by (simp_all add: world_defs)
  from unreachable_server_is_fatal [OF h1 h2] h1 h2 show ?thesis
    by (simp add: program_def)
qed

text \<open>
  C6. No call of the program is guarded: whenever a call raises (a socket error
  at \<open>socket\<close>, \<open>connect\<close>, \<open>sendall\<close> or \<open>recv\<close>, an encoding or a decoding
  error, the end of input), the run ends with exactly that exception and exit
  status 1, the raising call is the last thing the program did, and no \<open>print\<close>
  call has completed. No call is made twice (nothing is retried), and a run that
  ends with an exception ended at the call that raised it.
\<close>

theorem every_error_is_fatal:
  "(\<forall>ev \<in> set (trace (main w addr)). \<forall>e. failure ev = Some e \<longrightarrow>
       status (main w addr) = Inl e
     \<and> exit_status (main w addr) = 1
     \<and> last (trace (main w addr)) = ev
     \<and> printed (main w addr) = [])
   \<and> distinct (map stage_of (trace (main w addr)))
   \<and> (\<forall>e. status (main w addr) = Inl e \<longrightarrow>
         failure (last (trace (main w addr))) = Some e)"
proof (intro conjI)
  show "\<forall>ev \<in> set (trace (main w addr)). \<forall>e. failure ev = Some e \<longrightarrow>
       status (main w addr) = Inl e
     \<and> exit_status (main w addr) = 1
     \<and> last (trace (main w addr)) = ev
     \<and> printed (main w addr) = []"
  proof (intro ballI allI impI)
    fix ev e
    assume "ev \<in> set (trace (main w addr))" and "failure ev = Some e"
    then show "status (main w addr) = Inl e
     \<and> exit_status (main w addr) = 1
     \<and> last (trace (main w addr)) = ev
     \<and> printed (main w addr) = []"
      by (cases w addr rule: main_cases) (auto simp: view_defs)
  qed
  show "distinct (map stage_of (trace (main w addr)))"
    by (cases w addr rule: main_cases) (simp_all add: trace_def)
  show "\<forall>e. status (main w addr) = Inl e \<longrightarrow>
         failure (last (trace (main w addr))) = Some e"
    by (cases w addr rule: main_cases) (simp_all add: trace_def status_def)
qed

theorem every_error_is_fatal_witness:
  "Recv 5 (Inl (OSError 104)) \<in> set (trace (program reset_on_recv_world))
   \<and> failure (Recv 5 (Inl (OSError 104))) = Some (OSError 104)
   \<and> status (program reset_on_recv_world) = Inl (OSError 104)
   \<and> exit_status (program reset_on_recv_world) = 1
   \<and> printed (program reset_on_recv_world) = []"
proof -
  have mem: "Recv 5 (Inl (OSError 104)) \<in> set (trace (program reset_on_recv_world))"
    by (simp add: eval_defs trace_def)
  have fails: "failure (Recv 5 (Inl (OSError 104))) = Some (OSError 104)"
    by simp
  from every_error_is_fatal [of reset_on_recv_world "(''localhost'', 12345)"] mem fails
  show ?thesis
    unfolding program_def by blast
qed

section \<open>Short reads\<close>




section \<open>The empty line\<close>




section \<open>The order of the steps\<close>

text \<open>
  C8. On every run the calls happen in one order: create the socket, connect,
  read a line, encode it, send, receive, decode, print. A run is an initial part of
  that sequence, every call before its last one succeeded, and a run that ends
  normally made all eight. In particular a read from the terminal is the third
  call, after the socket was created and the connection was established.
\<close>

theorem steps_in_fixed_order:
  "prefix (map stage_of (trace (main w addr)))
     [At_socket, At_connect, At_input, At_encode, At_sendall, At_recv, At_decode, At_print]
   \<and> list_all (\<lambda>ev. failure ev = None) (butlast (trace (main w addr)))
   \<and> (status (main w addr) = Inr () \<longrightarrow> length (trace (main w addr)) = 8)
   \<and> (\<forall>i < length (trace (main w addr)).
         stage_of (trace (main w addr) ! i) = At_input \<longrightarrow>
           i = 2 \<and> trace (main w addr) ! 0 = Socket None
                 \<and> trace (main w addr) ! 1 = Connect addr None)"
proof (intro conjI)
  show "prefix (map stage_of (trace (main w addr)))
     [At_socket, At_connect, At_input, At_encode, At_sendall, At_recv, At_decode, At_print]"
    by (cases w addr rule: main_cases) (simp_all add: trace_def)
  show "list_all (\<lambda>ev. failure ev = None) (butlast (trace (main w addr)))"
    by (cases w addr rule: main_cases) (simp_all add: trace_def)
  show "status (main w addr) = Inr () \<longrightarrow> length (trace (main w addr)) = 8"
    by (cases w addr rule: main_cases) (simp_all add: trace_def status_def)
  show "\<forall>i < length (trace (main w addr)).
         stage_of (trace (main w addr) ! i) = At_input \<longrightarrow>
           i = 2 \<and> trace (main w addr) ! 0 = Socket None
                 \<and> trace (main w addr) ! 1 = Connect addr None"
    by (cases w addr rule: main_cases) (auto simp: trace_def less_Suc_eq nth_Cons')
qed

theorem steps_in_fixed_order_witness:
  "status (program hello_world) = Inr ()
   \<and> 2 < length (trace (program hello_world))
   \<and> stage_of (trace (program hello_world) ! 2) = At_input
   \<and> length (trace (program hello_world)) = 8
   \<and> trace (program hello_world) ! 1 = Connect (''localhost'', 12345) None"
proof -
  have ok: "status (program hello_world) = Inr ()"
    and len: "2 < length (trace (program hello_world))"
    and inp: "stage_of (trace (program hello_world) ! 2) = At_input"
    by (simp_all add: eval_defs trace_def status_def)
  from steps_in_fixed_order [of hello_world "(''localhost'', 12345)"] ok len inp
  show ?thesis
    unfolding program_def by blast
qed

section \<open>The interface\<close>




section \<open>Sending\<close>

text \<open>
  C5, as amended. The program makes a single \<open>sendall\<close> call, and when that call
  returns normally all octets of the encoded line are on the wire: \<open>sendall\<close>
  itself repeats \<open>send\<close> until nothing is left of the buffer.

  As stated, a single send that is assumed to take everything, with no repetition,
  the claim fails: with a kernel that takes one octet per \<open>send\<close>, the one
  \<open>sendall\<close> call makes five \<open>send\<close> calls for \<open>hello\<close>, and the round trip
  succeeds.
\<close>

theorem sendall_writes_whole_message:
  "length (filter (\<lambda>ev. stage_of ev = At_sendall) (trace (main w addr))) \<le> 1
   \<and> (\<forall>buf cs. Sendall buf cs None \<in> set (trace (main w addr)) \<longrightarrow>
         concat cs = buf
       \<and> transmitted (main w addr) = buf
       \<and> (\<exists>s. read_line (stdin w) = Inr s \<and> utf8_encode s = Inr buf))"
proof (intro conjI allI impI)
  show "length (filter (\<lambda>ev. stage_of ev = At_sendall) (trace (main w addr))) \<le> 1"
    by (cases w addr rule: main_cases) (simp_all add: trace_def)
next
  fix buf cs
  assume sent: "Sendall buf cs None \<in> set (trace (main w addr))"
  then have ok: "sendall w buf = (cs, None)"
    and line: "\<exists>s. read_line (stdin w) = Inr s \<and> utf8_encode s = Inr buf"
    and wire: "transmitted (main w addr) = concat cs"
    by (cases w addr rule: main_cases; auto simp: view_defs)+
  from ok show "concat cs = buf"
    by (rule sendall_complete)
  with wire show "transmitted (main w addr) = buf"
    by simp
  from line show "\<exists>s. read_line (stdin w) = Inr s \<and> utf8_encode s = Inr buf" .
qed

theorem sendall_writes_whole_message_witness:
  "Sendall [104, 101, 108, 108, 111] [[104], [101], [108], [108], [111]] None
     \<in> set (trace (program trickle_world))
   \<and> transmitted (program trickle_world) = [104, 101, 108, 108, 111]"
proof -
  have mem: "Sendall [104, 101, 108, 108, 111] [[104], [101], [108], [108], [111]] None
     \<in> set (trace (program trickle_world))"
    by (simp add: eval_defs trace_def)
  from sendall_writes_whole_message [of trickle_world "(''localhost'', 12345)"] mem
  show ?thesis
    unfolding program_def by blast
qed

theorem single_send_counterexample:
  "send_calls (program trickle_world) = [[104], [101], [108], [108], [111]]
   \<and> length (send_calls (program trickle_world)) = 5
   \<and> status (program trickle_world) = Inr ()
   \<and> printed (program trickle_world) = [str_of ''Received > hello'' @ [10]]"
  by (simp add: eval_defs view_defs)

end
